theory Spec2Isabelle
  imports Main "HOL-Library.Word"
begin

unbundle bit_operations_syntax

section \<open>The system-call layer of Pintos (userprog/syscall.c)\<close>

text \<open>
  The theory embeds \<^verbatim>\<open>src/pintos/src/userprog/syscall.c\<close>: the address validator
  \<^verbatim>\<open>check_address\<close>, the argument marshaler \<^verbatim>\<open>get_argument\<close>, the thirteen
  system calls and the dispatcher \<^verbatim>\<open>syscall_handler\<close>.

  The target is 32-bit x86: \<^verbatim>\<open>int\<close>, \<^verbatim>\<open>unsigned\<close>, \<^verbatim>\<open>tid_t\<close> and every pointer
  are 32-bit words. Signed and unsigned values share the type; the comparison used
  (\<open><\<close> unsigned, \<open><s\<close> signed) is the one C selects at each place. Arithmetic wraps
  around, as the machine's does.
\<close>

type_synonym addr = "32 word"
type_synonym cint = "32 word"
type_synonym byte = "8 word"
type_synonym memory = "addr \<Rightarrow> byte"

text \<open>
  \<^verbatim>\<open>struct file *\<close> and \<^verbatim>\<open>struct thread *\<close> are pointers to kernel objects. The
  objects are named by numbers; a pointer is an \<open>option\<close>, \<open>None\<close> being \<^verbatim>\<open>NULL\<close>.
\<close>

type_synonym file_ref = nat
type_synonym thread_ref = nat

subsection \<open>What a run of the calling thread leaves behind\<close>

text \<open>
  The calls of the source into the filesystem (\<^verbatim>\<open>filesys_*\<close>, \<^verbatim>\<open>file_*\<close>) are named,
  so that the log of a run can say which call was made.
\<close>

datatype fs_call =
    Filesys_create | Filesys_remove | Filesys_open
  | File_deny_write | File_length | File_read | File_write | File_seek | File_tell

text \<open>
  The log of a run, oldest event first: an address handed to \<^verbatim>\<open>check_address\<close>, a
  dereference of a user pointer by the dispatcher or the marshaler, \<^verbatim>\<open>lock_acquire\<close>
  and \<^verbatim>\<open>lock_release\<close> of \<^verbatim>\<open>filesys_lock\<close>, and a call into the filesystem.
\<close>

datatype event =
    Validate addr
  | Load addr
  | Acquire
  | Release
  | Call fs_call

text \<open>
  The state a system call works on, seen from the calling thread:
  \<^item> \<open>mem\<close>: the virtual memory of the calling process, byte by byte;
  \<^item> \<open>thread_name\<close>, \<open>exit_status\<close>: the fields \<^verbatim>\<open>name\<close> and \<^verbatim>\<open>exit_status\<close> of
    \<^verbatim>\<open>thread_current ()\<close>;
  \<^item> \<open>console\<close>: the bytes written so far by \<^verbatim>\<open>printf\<close> and \<^verbatim>\<open>putbuf\<close>;
  \<^item> \<open>keys\<close>: the bytes the keyboard delivers to \<^verbatim>\<open>input_getc\<close>, next one at 0;
  \<^item> \<open>lock_held\<close>: whether the calling thread holds \<^verbatim>\<open>filesys_lock\<close>;
  \<^item> \<open>kernel\<close>: the state of the subsystems the file calls into and whose code is not
    part of it (filesystem, process table, descriptor tables);
  \<^item> \<open>trace\<close>: the log of events.
\<close>

record 'k state =
  mem :: memory
  thread_name :: string
  exit_status :: cint
  console :: "byte list"
  keys :: "nat \<Rightarrow> byte"
  lock_held :: bool
  kernel :: 'k
  trace :: "event list"

text \<open>\<^verbatim>\<open>struct intr_frame\<close>: the two fields the handler touches.\<close>

record intr_frame =
  esp :: addr
  eax :: "32 word"

text \<open>
  How a function of the file ends. It returns a value, or it does not return:
  \<^verbatim>\<open>thread_exit ()\<close> ended the calling thread (\<open>Exited\<close>), \<^verbatim>\<open>shutdown_power_off ()\<close>
  ended the machine (\<open>Halted\<close>), or the kernel dereferenced a null pointer (\<open>Fault\<close>),
  which is undefined behaviour in C and a page fault in kernel mode on the machine.
\<close>

datatype ('a, 's) outcome =
    Returned 'a 's
  | Exited 's
  | Halted 's
  | Fault 's

definition then_do ::
  "('a, 's) outcome \<Rightarrow> ('a \<Rightarrow> 's \<Rightarrow> ('b, 's) outcome) \<Rightarrow> ('b, 's) outcome" where
  "then_do m f =
     (case m of
        Returned v s \<Rightarrow> f v s
      | Exited s \<Rightarrow> Exited s
      | Halted s \<Rightarrow> Halted s
      | Fault s \<Rightarrow> Fault s)"

definition log :: "event \<Rightarrow> 'k state \<Rightarrow> 'k state" where
  "log e s = s\<lparr>trace := trace s @ [e]\<rparr>"

subsection \<open>Kernel primitives the file calls\<close>

text \<open>
  Modelled from the spec: \<^verbatim>\<open>thread_exit\<close> (threads/thread.c is missing), the
  scheduler's thread-termination path, which never returns.
\<close>

definition thread_exit :: "'k state \<Rightarrow> ('a, 'k state) outcome" where
  "thread_exit s = Exited s"

text \<open>
  Modelled from the spec: \<^verbatim>\<open>shutdown_power_off\<close> (devices/shutdown.c is missing),
  the power control's \<^verbatim>\<open>shutdown()\<close>, which never returns.
\<close>

definition shutdown_power_off :: "'k state \<Rightarrow> ('a, 'k state) outcome" where
  "shutdown_power_off s = Halted s"

text \<open>
  Modelled from the spec: \<^verbatim>\<open>lock_acquire\<close> and \<^verbatim>\<open>lock_release\<close> (threads/synch.c is
  missing) on \<^verbatim>\<open>filesys_lock\<close>, a mutual-exclusion primitive with at most one holder.
  The time the caller sleeps until the lock is free is not visible to the caller.
\<close>

definition lock_acquire :: "'k state \<Rightarrow> 'k state" where
  "lock_acquire s = log Acquire (s\<lparr>lock_held := True\<rparr>)"

definition lock_release :: "'k state \<Rightarrow> 'k state" where
  "lock_release s = log Release (s\<lparr>lock_held := False\<rparr>)"

text \<open>
  Modelled from the spec: \<^verbatim>\<open>input_getc\<close> (devices/input.c is missing), the
  keyboard's \<^verbatim>\<open>read_char() -> byte\<close>: the next byte of the keyboard source. The
  time the caller sleeps until a key is pressed is not visible to the caller.
\<close>

definition input_getc :: "'k state \<Rightarrow> byte \<times> 'k state" where
  "input_getc s = (keys s 0, s\<lparr>keys := (\<lambda>n. keys s (Suc n))\<rparr>)"

text \<open>
  Modelled from the spec: \<^verbatim>\<open>putbuf\<close> (lib/kernel/console.c is missing), the
  console's \<^verbatim>\<open>write_bytes(buffer, size)\<close>: the \<open>size\<close> bytes at \<open>buffer\<close> go to the
  console.
\<close>

definition putbuf :: "addr \<Rightarrow> 32 word \<Rightarrow> 'k state \<Rightarrow> 'k state" where
  "putbuf buffer sz s =
     s\<lparr>console := console s @ map (\<lambda>i. mem s (buffer + of_nat i)) [0..<unat sz]\<rparr>"

text \<open>\<^verbatim>\<open>*(int *) p\<close> on x86: four bytes, the lowest address the least significant.\<close>

definition load32 :: "memory \<Rightarrow> addr \<Rightarrow> 32 word" where
  "load32 m p =
     ucast (m p) OR push_bit 8 (ucast (m (p + 1)))
       OR push_bit 16 (ucast (m (p + 2))) OR push_bit 24 (ucast (m (p + 3)))"

text \<open>
  Modelled from the spec: \<^verbatim>\<open>strcmp\<close> (lib/string.c is missing) of the string at a
  user address with a kernel string, used by \<^verbatim>\<open>open\<close> for "the opened file's name
  exactly equals the calling process's own executable name". The result is 0 for equal
  strings and -1 or 1 by the first bytes that differ.
\<close>

fun strcmp :: "memory \<Rightarrow> addr \<Rightarrow> string \<Rightarrow> cint" where
  "strcmp m a [] = (if m a = 0 then 0 else 1)"
| "strcmp m a (c # cs) =
     (if m a \<noteq> 0 \<and> m a = of_char c then strcmp m (a + 1) cs
      else if m a < of_char c then - 1
      else if of_char c < m a then 1
      else 0)"

text \<open>
  Modelled from the spec: \<^verbatim>\<open>printf\<close> with the format \<^verbatim>\<open>"%s: exit(%d)\n"\<close> (lib/stdio.c
  is missing): the "human-readable termination notice tagged with the process's name and
  status". \<open>%d\<close> prints a signed decimal number.
\<close>

function decimal :: "nat \<Rightarrow> string" where
  "decimal n =
     (if n < 10 then [''0123456789'' ! n]
      else decimal (n div 10) @ [''0123456789'' ! (n mod 10)])"
  by pat_completeness auto
termination
  by (relation "measure id") auto

definition printf_d :: "cint \<Rightarrow> string" where
  "printf_d v = (if sint v < 0 then ''-'' @ decimal (nat (- sint v)) else decimal (nat (sint v)))"

definition exit_notice :: "string \<Rightarrow> cint \<Rightarrow> byte list" where
  "exit_notice nm status =
     map of_char (nm @ '': exit('' @ printf_d status @ '')'' @ [CHR 0x0A])"

subsection \<open>exit, check_address, get_argument\<close>

text \<open>
  \<^verbatim>\<open>exit\<close>: store the status in the thread, print the notice, end the thread.
\<close>

definition exit :: "cint \<Rightarrow> 'k state \<Rightarrow> ('a, 'k state) outcome" where
  "exit status s =
     thread_exit
       (s\<lparr>exit_status := status,
          console := console s @ exit_notice (thread_name s) status\<rparr>)"

text \<open>
  \<^verbatim>\<open>check_address\<close>: \<^verbatim>\<open>(unsigned)addr < 0x8048000 || (unsigned)addr >= 0xc0000000\<close>
  leads to \<^verbatim>\<open>exit (-1)\<close>. The comparison is unsigned.
\<close>

definition check_address :: "addr \<Rightarrow> 'k state \<Rightarrow> (unit, 'k state) outcome" where
  "check_address a s =
     (if a < 0x8048000 \<or> 0xc0000000 \<le> a then exit (- 1) (log (Validate a) s)
      else Returned () (log (Validate a) s))"

text \<open>
  \<^verbatim>\<open>get_argument\<close>: the loop \<^verbatim>\<open>for (i = 0; i < count; i++)\<close> over the signed
  \<^verbatim>\<open>int\<close>s \<open>i\<close> and \<open>count\<close>. Each round checks the address \<^verbatim>\<open>esp + 4 + 4 * i\<close>,
  reads the word there and stores it in \<^verbatim>\<open>arg[i]\<close>. The array has the length its
  caller gave it; a store beyond its end is undefined behaviour (\<open>Fault\<close>).
\<close>

function get_argument_loop ::
  "addr \<Rightarrow> cint list \<Rightarrow> cint \<Rightarrow> cint \<Rightarrow> 'k state \<Rightarrow> (cint list, 'k state) outcome" where
  "get_argument_loop sp arg count i s =
     (if i <s count then
        (case check_address (sp + 4 + 4 * i) s of
           Returned u s1 \<Rightarrow>
             (if nat (sint i) < length arg then
                get_argument_loop sp
                  (arg[nat (sint i) := load32 (mem s1) (sp + 4 + 4 * i)]) count (i + 1)
                  (log (Load (sp + 4 + 4 * i)) s1)
              else Fault (log (Load (sp + 4 + 4 * i)) s1))
         | Exited s1 \<Rightarrow> Exited s1
         | Halted s1 \<Rightarrow> Halted s1
         | Fault s1 \<Rightarrow> Fault s1)
      else Returned arg s)"
  by pat_completeness auto

termination get_argument_loop
proof (relation "measure (\<lambda>(sp, arg, count, i, s). nat (sint count - sint i))")
  show "wf (measure (\<lambda>(sp, arg, count, i, s). nat (sint count - sint i)))"
    by simp
next
  fix sp :: addr and arg :: "cint list" and count i :: cint
    and s :: "'k state" and u :: unit and s1 :: "'k state"
  assume "i <s count"
  then have lt: "sint i < sint count"
    by (simp add: word_sless_alt)
  have "sint count < 2 ^ 31"
    using sint_lt [of count] by simp
  with lt have up: "sint i + 1 < 2 ^ 31"
    by linarith
  have "- (2 ^ 31) \<le> sint i"
    using sint_ge [of i] by simp
  then have lo: "- (2 ^ 31) \<le> sint i + 1"
    by linarith
  have "sint (i + 1) = signed_take_bit 31 (sint i + 1)"
    by (simp add: sint_word_ariths)
  also have "\<dots> = sint i + 1"
    using lo up by (simp add: signed_take_bit_int_eq_self)
  finally have "sint (i + 1) = sint i + 1" .
  with lt show "((sp, arg[nat (sint i) := load32 (mem s1) (sp + 4 + 4 * i)], count, i + 1,
               log (Load (sp + 4 + 4 * i)) s1),
              (sp, arg, count, i, s))
             \<in> measure (\<lambda>(sp, arg, count, i, s). nat (sint count - sint i))"
    by simp
qed

declare get_argument_loop.simps [simp del]

definition get_argument ::
  "addr \<Rightarrow> cint list \<Rightarrow> cint \<Rightarrow> 'k state \<Rightarrow> (cint list, 'k state) outcome" where
  "get_argument sp arg count s = get_argument_loop sp arg count 0 s"

subsection \<open>The subsystems behind the file\<close>

text \<open>
  The functions of the process subsystem and of the filesystem that the file calls are
  declared in headers only (userprog/process.h, filesys/filesys.h, filesys/file.h,
  threads/synch.h). They are parameters of the embedding: every statement below holds for
  whatever they do to the state \<open>'k\<close> of their subsystems. A function that reads or
  writes user memory through a pointer argument takes the memory too.

  \<open>sema_down\<close> is \<^verbatim>\<open>sema_down (&cp->load)\<close> for a present record \<open>cp\<close>: the caller
  sleeps until the child signals the end of its load, and the result is the state of the
  subsystems when the caller runs again. \<open>is_load\<close> reads \<^verbatim>\<open>cp->is_load\<close>.
  The functions of file.h take a handle that is present.
\<close>

record 'k ext =
  process_execute :: "memory \<Rightarrow> addr \<Rightarrow> 'k \<Rightarrow> cint \<times> 'k"
  get_child_process :: "cint \<Rightarrow> 'k \<Rightarrow> thread_ref option"
  sema_down :: "thread_ref \<Rightarrow> 'k \<Rightarrow> 'k"
  is_load :: "thread_ref \<Rightarrow> 'k \<Rightarrow> bool"
  process_wait :: "cint \<Rightarrow> 'k \<Rightarrow> cint \<times> 'k"
  process_add_file :: "file_ref \<Rightarrow> 'k \<Rightarrow> cint \<times> 'k"
  process_get_file :: "cint \<Rightarrow> 'k \<Rightarrow> file_ref option"
  process_close_file :: "cint \<Rightarrow> 'k \<Rightarrow> 'k"
  filesys_create :: "memory \<Rightarrow> addr \<Rightarrow> 32 word \<Rightarrow> 'k \<Rightarrow> bool \<times> 'k"
  filesys_remove :: "memory \<Rightarrow> addr \<Rightarrow> 'k \<Rightarrow> bool \<times> 'k"
  filesys_open :: "memory \<Rightarrow> addr \<Rightarrow> 'k \<Rightarrow> file_ref option \<times> 'k"
  file_deny_write :: "file_ref \<Rightarrow> 'k \<Rightarrow> 'k"
  file_length :: "file_ref \<Rightarrow> 'k \<Rightarrow> cint"
  file_read :: "file_ref \<Rightarrow> addr \<Rightarrow> 32 word \<Rightarrow> memory \<Rightarrow> 'k \<Rightarrow> cint \<times> memory \<times> 'k"
  file_write :: "file_ref \<Rightarrow> addr \<Rightarrow> 32 word \<Rightarrow> memory \<Rightarrow> 'k \<Rightarrow> cint \<times> 'k"
  file_seek :: "file_ref \<Rightarrow> 32 word \<Rightarrow> 'k \<Rightarrow> 'k"
  file_tell :: "file_ref \<Rightarrow> 'k \<Rightarrow> 32 word"

text \<open>
  \<^verbatim>\<open>sema_down (&cp->load)\<close> as \<^verbatim>\<open>exec\<close> calls it, with a pointer that may be null:
  \<^verbatim>\<open>sema_down\<close> reads and writes the semaphore inside the record, so a null record is
  dereferenced.
\<close>

definition sema_down_load ::
  "'k ext \<Rightarrow> thread_ref option \<Rightarrow> 'k state \<Rightarrow> (unit, 'k state) outcome" where
  "sema_down_load X cp s =
     (case cp of
        None \<Rightarrow> Fault s
      | Some c \<Rightarrow> Returned () (s\<lparr>kernel := sema_down X c (kernel s)\<rparr>))"

text \<open>
  Modelled from the spec: \<^verbatim>\<open>file_seek\<close> and \<^verbatim>\<open>file_tell\<close> (filesys/file.c is
  missing) as \<^verbatim>\<open>seek\<close> and \<^verbatim>\<open>tell\<close> call them, with a pointer that may be null. The
  filesystem's \<^verbatim>\<open>seek(handle, position)\<close> and \<^verbatim>\<open>tell(handle) -> position\<close> work on an
  open file handle, whose position they write and read: a null pointer is dereferenced.
\<close>

definition file_seek_ptr ::
  "'k ext \<Rightarrow> file_ref option \<Rightarrow> 32 word \<Rightarrow> 'k state \<Rightarrow> (unit, 'k state) outcome" where
  "file_seek_ptr X f position s =
     (case f of
        None \<Rightarrow> Fault (log (Call File_seek) s)
      | Some h \<Rightarrow>
          Returned () ((log (Call File_seek) s)\<lparr>kernel := file_seek X h position (kernel s)\<rparr>))"

definition file_tell_ptr ::
  "'k ext \<Rightarrow> file_ref option \<Rightarrow> 'k state \<Rightarrow> (32 word, 'k state) outcome" where
  "file_tell_ptr X f s =
     (case f of
        None \<Rightarrow> Fault (log (Call File_tell) s)
      | Some h \<Rightarrow> Returned (file_tell X h (kernel s)) (log (Call File_tell) s))"

subsection \<open>The system calls\<close>

definition halt :: "'k state \<Rightarrow> ('a, 'k state) outcome" where
  "halt s = shutdown_power_off s"

text \<open>
  \<^verbatim>\<open>create\<close> and \<^verbatim>\<open>remove\<close>: a null name gives \<^verbatim>\<open>false\<close>, any other name goes to the
  filesystem. Neither touches \<^verbatim>\<open>filesys_lock\<close>.
\<close>

definition create :: "'k ext \<Rightarrow> addr \<Rightarrow> 32 word \<Rightarrow> 'k state \<Rightarrow> (bool, 'k state) outcome" where
  "create X file initial_size s =
     (if file = 0 then Returned False s
      else
        (let s1 = log (Call Filesys_create) s;
             (b, k) = filesys_create X (mem s1) file initial_size (kernel s1)
         in Returned b (s1\<lparr>kernel := k\<rparr>)))"

definition remove :: "'k ext \<Rightarrow> addr \<Rightarrow> 'k state \<Rightarrow> (bool, 'k state) outcome" where
  "remove X file s =
     (if file = 0 then Returned False s
      else
        (let s1 = log (Call Filesys_remove) s;
             (b, k) = filesys_remove X (mem s1) file (kernel s1)
         in Returned b (s1\<lparr>kernel := k\<rparr>)))"

text \<open>
  \<^verbatim>\<open>exec\<close>: create the child, fetch its record, wait on the record's semaphore, and
  only then compare the record with \<^verbatim>\<open>NULL\<close>.
\<close>

definition exec :: "'k ext \<Rightarrow> addr \<Rightarrow> 'k state \<Rightarrow> (cint, 'k state) outcome" where
  "exec X cmd_line s =
     (let (tid, k1) = process_execute X (mem s) cmd_line (kernel s);
          s1 = s\<lparr>kernel := k1\<rparr>;
          cp = get_child_process X tid (kernel s1)
      in then_do (sema_down_load X cp s1) (\<lambda>u s2.
           (case cp of
              None \<Rightarrow> Returned (- 1) s2
            | Some c \<Rightarrow>
                if is_load X c (kernel s2) = False then Returned (- 1) s2
                else Returned tid s2)))"

definition wait :: "'k ext \<Rightarrow> cint \<Rightarrow> 'k state \<Rightarrow> (cint, 'k state) outcome" where
  "wait X tid s =
     (let (r, k) = process_wait X tid (kernel s) in Returned r (s\<lparr>kernel := k\<rparr>))"

text \<open>
  \<^verbatim>\<open>open\<close>: a null name gives -1 before the lock is taken. Otherwise the lock is held
  from before \<^verbatim>\<open>filesys_open\<close> until after \<^verbatim>\<open>process_add_file\<close>; the result 64 of
  \<^verbatim>\<open>process_add_file\<close> stands for a full descriptor table.
\<close>

definition open_sys :: "'k ext \<Rightarrow> addr \<Rightarrow> 'k state \<Rightarrow> (cint, 'k state) outcome" where
  "open_sys X file s =
     (if file = 0 then Returned (- 1) s
      else
        (let s1 = log (Call Filesys_open) (lock_acquire s);
             (f, k1) = filesys_open X (mem s1) file (kernel s1);
             s2 = s1\<lparr>kernel := k1\<rparr>
         in case f of
              None \<Rightarrow> Returned (- 1) (lock_release s2)
            | Some h \<Rightarrow>
                (let s3 = (if strcmp (mem s2) file (thread_name s2) = 0
                           then (log (Call File_deny_write) s2)
                                  \<lparr>kernel := file_deny_write X h (kernel s2)\<rparr>
                           else s2);
                     (results, k4) = process_add_file X h (kernel s3);
                     s5 = lock_release (s3\<lparr>kernel := k4\<rparr>)
                 in if results = 64 then Returned (- 1) s5 else Returned results s5)))"

definition filesize :: "'k ext \<Rightarrow> cint \<Rightarrow> 'k state \<Rightarrow> (cint, 'k state) outcome" where
  "filesize X fd s =
     (case process_get_file X fd (kernel s) of
        None \<Rightarrow> Returned (- 1) s
      | Some h \<Rightarrow> Returned (file_length X h (kernel s)) (log (Call File_length) s))"

text \<open>
  The loop of \<^verbatim>\<open>read\<close> for descriptor 0: \<^verbatim>\<open>for (i = 0; i < size; i++)\<close> with an
  \<^verbatim>\<open>int i\<close> and an \<^verbatim>\<open>unsigned size\<close>, so the comparison is unsigned. Each round stores
  one byte of \<^verbatim>\<open>input_getc ()\<close> at \<^verbatim>\<open>buffer + i\<close>.
\<close>

function read_loop :: "addr \<Rightarrow> 32 word \<Rightarrow> cint \<Rightarrow> 'k state \<Rightarrow> 'k state" where
  "read_loop buffer sz i s =
     (if i < sz then
        (let (c, s1) = input_getc s
         in read_loop buffer sz (i + 1) (s1\<lparr>mem := (mem s1)(buffer + i := c)\<rparr>))
      else s)"
  by pat_completeness auto
termination
proof (relation "measure (\<lambda>(buffer, sz, i, s). unat sz - unat i)")
  show "wf (measure (\<lambda>(buffer, sz, i, s). unat sz - unat i))"
    by simp
next
  fix buffer :: addr and sz i :: "32 word" and s :: "'k state"
    and x :: "byte \<times> 'k state" and c :: byte and s1 :: "'k state"
  assume lt: "i < sz"
  then have "unat i < unat sz"
    by (simp add: word_less_nat_alt)
  moreover have "i + 1 \<noteq> 0"
    using lt by (metis eq_neg_iff_add_eq_0 word_order.extremum_strict)
  then have "unat (i + 1) = Suc (unat i)"
    by (metis unatSuc add.commute)
  ultimately show "((buffer, sz, i + 1, s1\<lparr>mem := (mem s1)(buffer + i := c)\<rparr>),
                    (buffer, sz, i, s))
                   \<in> measure (\<lambda>(buffer, sz, i, s). unat sz - unat i)"
    by simp
qed

declare read_loop.simps [simp del]

text \<open>
  \<^verbatim>\<open>read\<close>: the lock is taken first and the descriptor looked up, whatever \<open>fd\<close> is.
  Descriptor 0 reads the keyboard and returns \<open>size\<close>; any other descriptor needs a
  handle and returns what \<^verbatim>\<open>file_read\<close> returns.
\<close>

definition read ::
  "'k ext \<Rightarrow> cint \<Rightarrow> addr \<Rightarrow> 32 word \<Rightarrow> 'k state \<Rightarrow> (cint, 'k state) outcome" where
  "read X fd buffer sz s =
     (let s1 = lock_acquire s;
          f = process_get_file X fd (kernel s1)
      in if fd = 0 then
           (let s2 = read_loop buffer sz 0 s1
            in Returned sz (lock_release s2))
         else
           (case f of
              None \<Rightarrow> Returned (- 1) (lock_release s1)
            | Some h \<Rightarrow>
                (let s2 = log (Call File_read) s1;
                     (sizes, m, k) = file_read X h buffer sz (mem s2) (kernel s2)
                 in Returned sizes (lock_release (s2\<lparr>mem := m, kernel := k\<rparr>)))))"

text \<open>
  \<^verbatim>\<open>write\<close>: as \<^verbatim>\<open>read\<close>, with descriptor 1 for the console.
\<close>

definition write_sys ::
  "'k ext \<Rightarrow> cint \<Rightarrow> addr \<Rightarrow> 32 word \<Rightarrow> 'k state \<Rightarrow> (cint, 'k state) outcome" where
  "write_sys X fd buffer sz s =
     (let s1 = lock_acquire s;
          f = process_get_file X fd (kernel s1)
      in if fd = 1 then
           (let s2 = putbuf buffer sz s1
            in Returned sz (lock_release s2))
         else
           (case f of
              None \<Rightarrow> Returned (- 1) (lock_release s1)
            | Some h \<Rightarrow>
                (let s2 = log (Call File_write) s1;
                     (sizes, k) = file_write X h buffer sz (mem s2) (kernel s2)
                 in Returned sizes (lock_release (s2\<lparr>kernel := k\<rparr>)))))"

text \<open>
  \<^verbatim>\<open>seek\<close> and \<^verbatim>\<open>tell\<close> hand the pointer that \<^verbatim>\<open>process_get_file\<close> returned to
  \<^verbatim>\<open>file_seek\<close> and \<^verbatim>\<open>file_tell\<close> without comparing it with \<^verbatim>\<open>NULL\<close>.
\<close>

definition seek :: "'k ext \<Rightarrow> cint \<Rightarrow> 32 word \<Rightarrow> 'k state \<Rightarrow> (unit, 'k state) outcome" where
  "seek X fd position s =
     (let f = process_get_file X fd (kernel s)
      in file_seek_ptr X f position s)"

definition tell :: "'k ext \<Rightarrow> cint \<Rightarrow> 'k state \<Rightarrow> (32 word, 'k state) outcome" where
  "tell X fd s =
     (let f = process_get_file X fd (kernel s)
      in file_tell_ptr X f s)"

definition close :: "'k ext \<Rightarrow> cint \<Rightarrow> 'k state \<Rightarrow> (unit, 'k state) outcome" where
  "close X fd s = Returned () (s\<lparr>kernel := process_close_file X fd (kernel s)\<rparr>)"

subsection \<open>The dispatcher\<close>

text \<open>
  The system-call numbers of \<^verbatim>\<open>syscall-nr.h\<close>, which is missing: thirteen constants,
  parameters of the embedding. They are the labels of a C \<^verbatim>\<open>switch\<close>, which the
  compiler accepts only when no two are equal.
\<close>

record sysnr =
  SYS_HALT :: cint
  SYS_EXIT :: cint
  SYS_EXEC :: cint
  SYS_WAIT :: cint
  SYS_CREATE :: cint
  SYS_REMOVE :: cint
  SYS_OPEN :: cint
  SYS_FILESIZE :: cint
  SYS_READ :: cint
  SYS_WRITE :: cint
  SYS_SEEK :: cint
  SYS_TELL :: cint
  SYS_CLOSE :: cint

definition labels :: "sysnr \<Rightarrow> cint list" where
  "labels nr =
     [SYS_HALT nr, SYS_EXIT nr, SYS_EXEC nr, SYS_WAIT nr, SYS_CREATE nr, SYS_REMOVE nr,
      SYS_OPEN nr, SYS_FILESIZE nr, SYS_READ nr, SYS_WRITE nr, SYS_SEEK nr, SYS_TELL nr,
      SYS_CLOSE nr]"

text \<open>
  \<^verbatim>\<open>syscall_handler\<close>: check the stack pointer, read the number there, and per case
  fetch the arguments, check the pointer among them, run the system call and store its
  result in \<^verbatim>\<open>f->eax\<close>. \<^verbatim>\<open>int arg[3]\<close> is not initialised; only entries that
  \<^verbatim>\<open>get_argument\<close> wrote are read, and the embedding starts the array with zeros.
\<close>

definition syscall_handler ::
  "'k ext \<Rightarrow> sysnr \<Rightarrow> intr_frame \<Rightarrow> 'k state \<Rightarrow> (intr_frame, 'k state) outcome" where
  "syscall_handler X nr f s =
     then_do (check_address (esp f) s) (\<lambda>u s0.
       (let syscall_number = load32 (mem s0) (esp f);
            s1 = log (Load (esp f)) s0;
            arg0 = [0, 0, 0]
        in
          if syscall_number = SYS_HALT nr then halt s1
          else if syscall_number = SYS_EXIT nr then
            then_do (get_argument (esp f) arg0 1 s1) (\<lambda>arg s2.
              exit (arg ! 0) s2)
          else if syscall_number = SYS_EXEC nr then
            then_do (get_argument (esp f) arg0 1 s1) (\<lambda>arg s2.
            then_do (check_address (arg ! 0) s2) (\<lambda>u s3.
            then_do (exec X (arg ! 0) s3) (\<lambda>r s4.
              Returned (f\<lparr>eax := r\<rparr>) s4)))
          else if syscall_number = SYS_WAIT nr then
            then_do (get_argument (esp f) arg0 1 s1) (\<lambda>arg s2.
            then_do (wait X (arg ! 0) s2) (\<lambda>r s3.
              Returned (f\<lparr>eax := r\<rparr>) s3))
          else if syscall_number = SYS_CREATE nr then
            then_do (get_argument (esp f) arg0 2 s1) (\<lambda>arg s2.
            then_do (check_address (arg ! 0) s2) (\<lambda>u s3.
            then_do (create X (arg ! 0) (arg ! 1) s3) (\<lambda>r s4.
              Returned (f\<lparr>eax := (if r then 1 else 0)\<rparr>) s4)))
          else if syscall_number = SYS_REMOVE nr then
            then_do (get_argument (esp f) arg0 1 s1) (\<lambda>arg s2.
            then_do (check_address (arg ! 0) s2) (\<lambda>u s3.
            then_do (remove X (arg ! 0) s3) (\<lambda>r s4.
              Returned (f\<lparr>eax := (if r then 1 else 0)\<rparr>) s4)))
          else if syscall_number = SYS_OPEN nr then
            then_do (get_argument (esp f) arg0 1 s1) (\<lambda>arg s2.
            then_do (check_address (arg ! 0) s2) (\<lambda>u s3.
            then_do (open_sys X (arg ! 0) s3) (\<lambda>r s4.
              Returned (f\<lparr>eax := r\<rparr>) s4)))
          else if syscall_number = SYS_FILESIZE nr then
            then_do (get_argument (esp f) arg0 1 s1) (\<lambda>arg s2.
            then_do (filesize X (arg ! 0) s2) (\<lambda>r s3.
              Returned (f\<lparr>eax := r\<rparr>) s3))
          else if syscall_number = SYS_READ nr then
            then_do (get_argument (esp f) arg0 3 s1) (\<lambda>arg s2.
            then_do (check_address (arg ! 1) s2) (\<lambda>u s3.
            then_do (read X (arg ! 0) (arg ! 1) (arg ! 2) s3) (\<lambda>r s4.
              Returned (f\<lparr>eax := r\<rparr>) s4)))
          else if syscall_number = SYS_WRITE nr then
            then_do (get_argument (esp f) arg0 3 s1) (\<lambda>arg s2.
            then_do (check_address (arg ! 1) s2) (\<lambda>u s3.
            then_do (write_sys X (arg ! 0) (arg ! 1) (arg ! 2) s3) (\<lambda>r s4.
              Returned (f\<lparr>eax := r\<rparr>) s4)))
          else if syscall_number = SYS_SEEK nr then
            then_do (get_argument (esp f) arg0 2 s1) (\<lambda>arg s2.
            then_do (seek X (arg ! 0) (arg ! 1) s2) (\<lambda>u s3.
              Returned f s3))
          else if syscall_number = SYS_TELL nr then
            then_do (get_argument (esp f) arg0 1 s1) (\<lambda>arg s2.
            then_do (tell X (arg ! 0) s2) (\<lambda>r s3.
              Returned (f\<lparr>eax := r\<rparr>) s3))
          else if syscall_number = SYS_CLOSE nr then
            then_do (get_argument (esp f) arg0 1 s1) (\<lambda>arg s2.
            then_do (close X (arg ! 0) s2) (\<lambda>u s3.
              Returned f s3))
          else thread_exit s1))"

subsection \<open>Vocabulary of the properties\<close>

text \<open>The user address range of \<^verbatim>\<open>check_address\<close>: \<open>[0x08048000, 0xC0000000)\<close>.\<close>

definition user_range :: "addr \<Rightarrow> bool" where
  "user_range a = (0x08048000 \<le> a \<and> a < 0xC0000000)"

text \<open>Argument slot \<open>i\<close> above the stack pointer: \<open>sp + 4 + 4 * i\<close>.\<close>

definition slot :: "addr \<Rightarrow> nat \<Rightarrow> addr" where
  "slot sp i = sp + 4 + 4 * of_nat i"

text \<open>
  The events of marshalling the slots \<open>i0, \<dots>, n - 1\<close> with success: each slot is
  validated, then read.
\<close>

definition marshal_events :: "addr \<Rightarrow> nat \<Rightarrow> nat \<Rightarrow> event list" where
  "marshal_events sp i0 n = concat (map (\<lambda>i. [Validate (slot sp i), Load (slot sp i)]) [i0..<n])"

text \<open>
  Whether every call into the filesystem in a log happens while the calling thread holds
  \<^verbatim>\<open>filesys_lock\<close>; \<open>h\<close> says whether it holds the lock at the start of the log.
\<close>

fun calls_locked :: "bool \<Rightarrow> event list \<Rightarrow> bool" where
  "calls_locked h [] = True"
| "calls_locked h (Acquire # es) = calls_locked True es"
| "calls_locked h (Release # es) = calls_locked False es"
| "calls_locked h (Call c # es) = (h \<and> calls_locked h es)"
| "calls_locked h (Validate a # es) = calls_locked h es"
| "calls_locked h (Load a # es) = calls_locked h es"

text \<open>Whether an event is a check or a read of a user address by the dispatcher.\<close>

fun marshalling :: "event \<Rightarrow> bool" where
  "marshalling (Validate a) = True"
| "marshalling (Load a) = True"
| "marshalling Acquire = False"
| "marshalling Release = False"
| "marshalling (Call c) = False"



text \<open>
  The events a run added to the log of the state it started from.
\<close>

definition new_events :: "'k state \<Rightarrow> 'k state \<Rightarrow> event list" where
  "new_events s s' = drop (length (trace s)) (trace s')"


subsection \<open>A small instance\<close>

text \<open>
  An instance of the parameters on which the definitions can be evaluated. The state of
  the subsystems is the number of descriptors the process has been given; descriptors
  start at 2; a name opens when its first byte is not 0; no child is ever found.
\<close>

definition tiny_ext :: "nat ext" where
  "tiny_ext =
     \<lparr>process_execute = (\<lambda>m a k. (- 1, k)),
      get_child_process = (\<lambda>tid k. None),
      sema_down = (\<lambda>c k. k),
      is_load = (\<lambda>c k. False),
      process_wait = (\<lambda>tid k. (- 1, k)),
      process_add_file = (\<lambda>h k. if k < 62 then (of_nat (k + 2), Suc k) else (64, k)),
      process_get_file = (\<lambda>fd k. if 2 \<le> unat fd \<and> unat fd < k + 2 then Some (unat fd) else None),
      process_close_file = (\<lambda>fd k. k),
      filesys_create = (\<lambda>m a sz k. (m a \<noteq> 0, k)),
      filesys_remove = (\<lambda>m a k. (m a \<noteq> 0, k)),
      filesys_open = (\<lambda>m a k. (if m a = 0 then None else Some 0, k)),
      file_deny_write = (\<lambda>h k. k),
      file_length = (\<lambda>h k. 0),
      file_read = (\<lambda>h b sz m k. (0, m, k)),
      file_write = (\<lambda>h b sz m k. (sz, k)),
      file_seek = (\<lambda>h p k. k),
      file_tell = (\<lambda>h k. 0)\<rparr>"

text \<open>The numbering of the system calls in the Pintos distribution.\<close>

definition tiny_nr :: sysnr where
  "tiny_nr =
     \<lparr>SYS_HALT = 0, SYS_EXIT = 1, SYS_EXEC = 2, SYS_WAIT = 3, SYS_CREATE = 4,
      SYS_REMOVE = 5, SYS_OPEN = 6, SYS_FILESIZE = 7, SYS_READ = 8, SYS_WRITE = 9,
      SYS_SEEK = 10, SYS_TELL = 11, SYS_CLOSE = 12\<rparr>"

text \<open>
  A state whose memory holds, at every address, the low byte of the address, with no
  descriptor given out and the lock free.
\<close>

definition tiny_state :: "nat state" where
  "tiny_state =
     \<lparr>mem = (\<lambda>a. ucast a),
      thread_name = ''echo'',
      exit_status = 0,
      console = [],
      keys = (\<lambda>n. of_nat n + 97),
      lock_held = False,
      kernel = 0,
      trace = []\<rparr>"

text \<open>
  A state whose stack, at \<open>0xbffffff0\<close>, holds the number 6 and above it only zeros:
  the call \<^verbatim>\<open>open (NULL)\<close> under the numbering above.
\<close>

definition open_null_state :: "nat state" where
  "open_null_state = tiny_state\<lparr>mem := (\<lambda>a. if a = 0xbffffff0 then 6 else 0)\<rparr>"

section \<open>Properties\<close>

subsection \<open>The address validator\<close>

text \<open>
  C1. For every raw pointer value \<open>a\<close>, \<^verbatim>\<open>check_address\<close> returns to its caller if and
  only if \<open>0x08048000 \<le> a < 0xC0000000\<close>. For every \<open>a\<close> outside that range, the null
  pointer included, it does not return: the calling thread is ended by \<^verbatim>\<open>thread_exit\<close>
  with the exit status -1 stored and the termination notice printed.
\<close>

theorem check_address_range:
  "((\<exists>s'. check_address a s = Returned () s') \<longleftrightarrow> 0x08048000 \<le> a \<and> a < 0xC0000000)
   \<and> (\<not> (0x08048000 \<le> a \<and> a < 0xC0000000) \<longrightarrow>
        check_address a s =
          Exited ((log (Validate a) s)
                    \<lparr>exit_status := - 1,
                     console := console s @ exit_notice (thread_name s) (- 1)\<rparr>))"
  by (auto simp: check_address_def exit_def thread_exit_def log_def)

theorem check_address_range_witness:
  "\<not> (0x08048000 \<le> (0 :: addr) \<and> (0 :: addr) < 0xC0000000)
   \<and> check_address 0 tiny_state =
          Exited ((log (Validate 0) tiny_state)
                    \<lparr>exit_status := - 1,
                     console := console tiny_state @ exit_notice (thread_name tiny_state) (- 1)\<rparr>)"
  using check_address_range [of 0 tiny_state] by simp

subsection \<open>The argument marshaler\<close>

lemma sint_of_nat_small: "n < 2 ^ 31 \<Longrightarrow> sint (of_nat n :: 32 word) = int n"
  by (simp add: signed_of_nat signed_take_bit_int_eq_self)

lemma sless_of_nat: "i < 2 ^ 31 \<Longrightarrow> n < 2 ^ 31 \<Longrightarrow> ((of_nat i :: 32 word) <s of_nat n) = (i < n)"
  by (simp add: word_sless_alt sint_of_nat_small)

lemma slot_word: "sp + 4 + 4 * of_nat i = slot sp i"
  by (simp add: slot_def)

lemma loop_done: "get_argument_loop sp arg (of_nat n) (of_nat n) s = Returned arg s"
  by (subst get_argument_loop.simps) simp

lemma loop_step_ok:
  assumes "i0 < n" "n \<le> length arg" "n < 2 ^ 31" "user_range (slot sp i0)"
  shows "get_argument_loop sp arg (of_nat n) (of_nat i0) s =
         get_argument_loop sp (arg[i0 := load32 (mem s) (slot sp i0)]) (of_nat n) (of_nat (Suc i0))
           (log (Load (slot sp i0)) (log (Validate (slot sp i0)) s))"
proof -
  have i0: "i0 < 2 ^ 31" using assms by simp
  have lt: "(of_nat i0 :: 32 word) <s of_nat n"
    using assms i0 by (simp add: sless_of_nat)
  have chk: "check_address (slot sp i0) s = Returned () (log (Validate (slot sp i0)) s)"
    using assms(4) by (auto simp: check_address_def user_range_def)
  show ?thesis
    using lt chk assms i0
    by (subst get_argument_loop.simps) (simp add: slot_word sint_of_nat_small log_def add.commute)
qed

lemma loop_step_bad:
  assumes "i0 < n" "n < 2 ^ 31" "\<not> user_range (slot sp i0)"
  shows "get_argument_loop sp arg (of_nat n) (of_nat i0) s = exit (- 1) (log (Validate (slot sp i0)) s)"
proof -
  have i0: "i0 < 2 ^ 31" using assms by simp
  have lt: "(of_nat i0 :: 32 word) <s of_nat n"
    using assms i0 by (simp add: sless_of_nat)
  have chk: "check_address (slot sp i0) s = exit (- 1) (log (Validate (slot sp i0)) s)"
    using assms(3) by (auto simp: check_address_def user_range_def)
  show ?thesis
    using lt chk
    by (subst get_argument_loop.simps) (simp add: slot_word exit_def thread_exit_def)
qed

lemma marshal_events_step:
  "i0 < n \<Longrightarrow> marshal_events sp i0 n = Validate (slot sp i0) # Load (slot sp i0) # marshal_events sp (Suc i0) n"
  by (simp add: marshal_events_def upt_conv_Cons)

lemma marshal_events_empty: "marshal_events sp n n = []"
  by (simp add: marshal_events_def)

lemma loop_ok:
  "n \<le> length arg \<Longrightarrow> n < 2 ^ 31 \<Longrightarrow> i0 \<le> n \<Longrightarrow>
   (\<forall>i. i0 \<le> i \<and> i < n \<longrightarrow> user_range (slot sp i)) \<Longrightarrow>
   get_argument_loop sp arg (of_nat n) (of_nat i0) s =
     Returned (take i0 arg @ map (\<lambda>i. load32 (mem s) (slot sp i)) [i0..<n] @ drop n arg)
              (s\<lparr>trace := trace s @ marshal_events sp i0 n\<rparr>)"
proof (induction "n - i0" arbitrary: i0 arg s)
  case 0
  then have "i0 = n" by simp
  then show ?case by (simp add: loop_done marshal_events_empty)
next
  case (Suc d)
  then have lt: "i0 < n" by simp
  let ?w = "load32 (mem s) (slot sp i0)"
  let ?s = "log (Load (slot sp i0)) (log (Validate (slot sp i0)) s)"
  have step: "get_argument_loop sp arg (of_nat n) (of_nat i0) s =
              get_argument_loop sp (arg[i0 := ?w]) (of_nat n) (of_nat (Suc i0)) ?s"
    using lt Suc.prems by (intro loop_step_ok) auto
  have ih: "get_argument_loop sp (arg[i0 := ?w]) (of_nat n) (of_nat (Suc i0)) ?s =
        Returned (take (Suc i0) (arg[i0 := ?w]) @ map (\<lambda>i. load32 (mem ?s) (slot sp i)) [Suc i0..<n]
                    @ drop n (arg[i0 := ?w]))
                 (?s\<lparr>trace := trace ?s @ marshal_events sp (Suc i0) n\<rparr>)"
    using Suc.hyps(2) lt Suc.prems by (intro Suc.hyps(1)) auto
  have l: "i0 < length arg" using lt Suc.prems by simp
  have t: "take (Suc i0) (arg[i0 := ?w]) = take i0 arg @ [?w]"
    using l by (simp add: take_Suc_conv_app_nth)
  have d: "drop n (arg[i0 := ?w]) = drop n arg"
    using lt by simp
  show ?case
    unfolding step ih t d
    using lt by (simp add: log_def marshal_events_step upt_conv_Cons)
qed

lemma loop_fail:
  "n < 2 ^ 31 \<Longrightarrow> n \<le> length arg \<Longrightarrow> i0 \<le> i \<Longrightarrow> i < n \<Longrightarrow>
   (\<forall>j. i0 \<le> j \<and> j < i \<longrightarrow> user_range (slot sp j)) \<Longrightarrow> \<not> user_range (slot sp i) \<Longrightarrow>
   get_argument_loop sp arg (of_nat n) (of_nat i0) s =
     exit (- 1) (s\<lparr>trace := trace s @ marshal_events sp i0 i @ [Validate (slot sp i)]\<rparr>)"
proof (induction "i - i0" arbitrary: i0 arg s)
  case 0
  then have "i0 = i" by simp
  then show ?case
    using 0 by (simp add: loop_step_bad marshal_events_empty log_def)
next
  case (Suc d)
  then have lt: "i0 < i" by simp
  let ?w = "load32 (mem s) (slot sp i0)"
  let ?s = "log (Load (slot sp i0)) (log (Validate (slot sp i0)) s)"
  have step: "get_argument_loop sp arg (of_nat n) (of_nat i0) s =
              get_argument_loop sp (arg[i0 := ?w]) (of_nat n) (of_nat (Suc i0)) ?s"
    using lt Suc.prems by (intro loop_step_ok) auto
  have ih: "get_argument_loop sp (arg[i0 := ?w]) (of_nat n) (of_nat (Suc i0)) ?s =
        exit (- 1) (?s\<lparr>trace := trace ?s @ marshal_events sp (Suc i0) i @ [Validate (slot sp i)]\<rparr>)"
    using Suc.hyps(2) lt Suc.prems by (intro Suc.hyps(1)) auto
  show ?case
    unfolding step ih
    using lt by (simp add: log_def marshal_events_step)
qed

lemma slot_distinct:
  assumes "j < 3" "j' < 3" "slot sp j = slot sp j'"
  shows "j = j'"
proof -
  have "j = 0 \<or> j = 1 \<or> j = 2" using assms(1) by auto
  moreover have "j' = 0 \<or> j' = 1 \<or> j' = 2" using assms(2) by auto
  ultimately show ?thesis
    using assms(3) by (auto simp: slot_def)
qed

lemma marshal_events_loads:
  "Load a \<in> set (marshal_events sp i0 n) \<longleftrightarrow> (\<exists>j. i0 \<le> j \<and> j < n \<and> a = slot sp j)"
  by (auto simp: marshal_events_def)

text \<open>
  C2. For every stack pointer \<open>sp\<close> and every count \<open>n\<close> from 0 to 3, \<^verbatim>\<open>get_argument\<close>
  works on the slots \<open>sp + 4 + 4 * i\<close> in the order of \<open>i\<close>, validating each slot before
  reading it. When all \<open>n\<close> slots are in the user range it returns the array with the
  \<open>n\<close> words of the slots in its first \<open>n\<close> entries. When slot \<open>i\<close> is the first one
  outside the range, the thread is ended by \<^verbatim>\<open>exit (-1)\<close> after the slots before \<open>i\<close>
  were read, and no slot from \<open>i\<close> on is read.
\<close>

theorem get_argument_marshals:
  assumes "n \<le> 3" and "n \<le> length arg"
  shows "((\<forall>i<n. user_range (slot sp i)) \<longrightarrow>
            get_argument sp arg (of_nat n) s =
              Returned (map (\<lambda>i. load32 (mem s) (slot sp i)) [0..<n] @ drop n arg)
                       (s\<lparr>trace := trace s @ marshal_events sp 0 n\<rparr>))
       \<and> (\<forall>i<n. (\<forall>j<i. user_range (slot sp j)) \<and> \<not> user_range (slot sp i) \<longrightarrow>
            get_argument sp arg (of_nat n) s =
              exit (- 1) (s\<lparr>trace := trace s @ marshal_events sp 0 i @ [Validate (slot sp i)]\<rparr>)
            \<and> (\<forall>j. i \<le> j \<and> j < n \<longrightarrow>
                  Load (slot sp j) \<notin> set (marshal_events sp 0 i @ [Validate (slot sp i)])))"
proof (intro conjI impI allI)
  have small: "n < 2 ^ 31" using assms(1) by simp
  {
    assume "\<forall>i<n. user_range (slot sp i)"
    then show "get_argument sp arg (of_nat n) s =
              Returned (map (\<lambda>i. load32 (mem s) (slot sp i)) [0..<n] @ drop n arg)
                       (s\<lparr>trace := trace s @ marshal_events sp 0 n\<rparr>)"
      using loop_ok [of n arg 0 sp s] assms(2) small by (simp add: get_argument_def)
  }
  {
    fix i
    assume i: "i < n" and bad: "(\<forall>j<i. user_range (slot sp j)) \<and> \<not> user_range (slot sp i)"
    show "get_argument sp arg (of_nat n) s =
              exit (- 1) (s\<lparr>trace := trace s @ marshal_events sp 0 i @ [Validate (slot sp i)]\<rparr>)"
      using loop_fail [of n arg 0 i sp s] assms(2) small i bad by (simp add: get_argument_def)
  }
  {
    fix i j
    assume i: "i < n" and j: "i \<le> j \<and> j < n"
    show "Load (slot sp j) \<notin> set (marshal_events sp 0 i @ [Validate (slot sp i)])"
    proof
      assume "Load (slot sp j) \<in> set (marshal_events sp 0 i @ [Validate (slot sp i)])"
      then obtain j' where j': "j' < i" "slot sp j = slot sp j'"
        by (auto simp: marshal_events_loads)
      then have "j = j'"
        using slot_distinct [of j j' sp] i j assms(1) by simp
      then show False using j j' by simp
    qed
  }
qed

theorem get_argument_marshals_witness:
  "get_argument 0xbffffff4 [0, 0, 0] 2 tiny_state =
     Returned [0xfbfaf9f8, 0xfffefdfc, 0]
       (tiny_state\<lparr>trace := [Validate 0xbffffff8, Load 0xbffffff8, Validate 0xbffffffc, Load 0xbffffffc]\<rparr>)
   \<and> get_argument 0xbffffff4 [0, 0, 0] 3 tiny_state =
     Exited (tiny_state\<lparr>exit_status := - 1, console := exit_notice ''echo'' (- 1),
        trace := [Validate 0xbffffff8, Load 0xbffffff8, Validate 0xbffffffc, Load 0xbffffffc,
                  Validate 0xc0000000]\<rparr>)"
proof -
  have v0: "user_range (slot 0xbffffff4 0)"
    and v1: "user_range (slot 0xbffffff4 1)"
    and v2: "\<not> user_range (slot 0xbffffff4 2)"
    by (simp_all add: user_range_def slot_def)
  have two: "\<forall>i<2. user_range (slot 0xbffffff4 i)"
    using v0 v1 by (auto simp: less_Suc_eq numeral_2_eq_2)
  have a: "get_argument 0xbffffff4 [0, 0, 0] 2 tiny_state =
     Returned [0xfbfaf9f8, 0xfffefdfc, 0]
       (tiny_state\<lparr>trace := [Validate 0xbffffff8, Load 0xbffffff8, Validate 0xbffffffc, Load 0xbffffffc]\<rparr>)"
    using get_argument_marshals [of 2 "[0, 0, 0]" "0xbffffff4" tiny_state] two
    apply (simp add: marshal_events_def slot_def upt_rec tiny_state_def load32_def)
    done
  have "\<forall>i<3. (\<forall>j<i. user_range (slot 0xbffffff4 j)) \<and> \<not> user_range (slot 0xbffffff4 i) \<longrightarrow>
            get_argument 0xbffffff4 [0, 0, 0] (of_nat 3) tiny_state =
              exit (- 1) (tiny_state\<lparr>trace := trace tiny_state @ marshal_events 0xbffffff4 0 i
                 @ [Validate (slot 0xbffffff4 i)]\<rparr>)
            \<and> (\<forall>j. i \<le> j \<and> j < 3 \<longrightarrow>
                  Load (slot 0xbffffff4 j) \<notin> set (marshal_events 0xbffffff4 0 i @ [Validate (slot 0xbffffff4 i)]))"
    using get_argument_marshals [of 3 "[0, 0, 0]" "0xbffffff4" tiny_state] by simp
  then have "get_argument 0xbffffff4 [0, 0, 0] (of_nat 3) tiny_state =
              exit (- 1) (tiny_state\<lparr>trace := trace tiny_state @ marshal_events 0xbffffff4 0 2
                 @ [Validate (slot 0xbffffff4 2)]\<rparr>)"
    using two v2 by (auto simp del: of_nat_numeral)
  then have b: "get_argument 0xbffffff4 [0, 0, 0] 3 tiny_state =
     Exited (tiny_state\<lparr>exit_status := - 1, console := exit_notice ''echo'' (- 1),
        trace := [Validate 0xbffffff8, Load 0xbffffff8, Validate 0xbffffffc, Load 0xbffffffc,
                  Validate 0xc0000000]\<rparr>)"
    by (simp add: marshal_events_def slot_def upt_rec tiny_state_def exit_def thread_exit_def)
  show ?thesis using a b by simp
qed

subsection \<open>The dispatcher\<close>

lemma then_do_Returned: "then_do (Returned v s) g = g v s"
  by (simp add: then_do_def)

lemma then_do_exit: "then_do (exit st s) g = exit st s"
  by (simp add: then_do_def exit_def thread_exit_def)

lemma check_address_ok: "user_range a \<Longrightarrow> check_address a s = Returned () (log (Validate a) s)"
  by (auto simp: check_address_def user_range_def)

lemma check_address_bad: "\<not> user_range a \<Longrightarrow> check_address a s = exit (- 1) (log (Validate a) s)"
  by (auto simp: check_address_def user_range_def)

lemma null_not_user: "\<not> user_range 0"
  by (simp add: user_range_def)

lemma get_argument_cases:
  assumes "n \<le> 3" "n \<le> length arg"
  obtains (ok) "\<forall>i<n. user_range (slot sp i)"
      "get_argument sp arg (of_nat n) s =
         Returned (map (\<lambda>i. load32 (mem s) (slot sp i)) [0..<n] @ drop n arg)
                  (s\<lparr>trace := trace s @ marshal_events sp 0 n\<rparr>)"
  | (bad) i where "i < n"
      "get_argument sp arg (of_nat n) s =
         exit (- 1) (s\<lparr>trace := trace s @ marshal_events sp 0 i @ [Validate (slot sp i)]\<rparr>)"
proof (cases "\<forall>i<n. user_range (slot sp i)")
  case True
  have "n < 2 ^ 31" using assms(1) by simp
  then have "get_argument sp arg (of_nat n) s =
         Returned (map (\<lambda>i. load32 (mem s) (slot sp i)) [0..<n] @ drop n arg)
                  (s\<lparr>trace := trace s @ marshal_events sp 0 n\<rparr>)"
    using loop_ok [of n arg 0 sp s] assms(2) True by (simp add: get_argument_def)
  with True show ?thesis by (rule ok)
next
  case False
  then have ex: "\<exists>i. i < n \<and> \<not> user_range (slot sp i)" by blast
  define i where "i = (LEAST i. i < n \<and> \<not> user_range (slot sp i))"
  have i: "i < n \<and> \<not> user_range (slot sp i)"
    unfolding i_def using ex by (rule LeastI_ex)
  have "\<forall>j<i. user_range (slot sp j)"
  proof (intro allI impI)
    fix j assume "j < i"
    then have "\<not> (j < n \<and> \<not> user_range (slot sp j))"
      unfolding i_def by (rule not_less_Least)
    with \<open>j < i\<close> i show "user_range (slot sp j)" by simp
  qed
  moreover have "n < 2 ^ 31" using assms(1) by simp
  ultimately have "get_argument sp arg (of_nat n) s =
         exit (- 1) (s\<lparr>trace := trace s @ marshal_events sp 0 i @ [Validate (slot sp i)]\<rparr>)"
    using loop_fail [of n arg 0 i sp s] assms(2) i by (simp add: get_argument_def)
  with i show ?thesis using bad by blast
qed


lemma marshalling_marshal_events: "e \<in> set (marshal_events sp i0 n) \<Longrightarrow> marshalling e"
  by (auto simp: marshal_events_def)

lemma exit_notice_nonempty: "exit_notice nm st \<noteq> []"
  by (simp add: exit_notice_def)

lemma thread_exit_not_exit: "Exited s \<noteq> exit st s"
proof
  assume "Exited s = exit st s"
  then have "s = s\<lparr>exit_status := st, console := console s @ exit_notice (thread_name s) st\<rparr>"
    by (simp add: exit_def thread_exit_def)
  then have "console s = console (s\<lparr>exit_status := st, console := console s @ exit_notice (thread_name s) st\<rparr>)"
    by (rule arg_cong)
  then show False
    by (simp add: exit_notice_nonempty)
qed

text \<open>
  C9. When the stack pointer is in the user range and the number read there is none of
  the thirteen labels, \<^verbatim>\<open>syscall_handler\<close> ends the calling thread by \<^verbatim>\<open>thread_exit\<close>
  with the state as it was but for the log: no exit status is stored and nothing is
  printed. The outcome differs from that of \<^verbatim>\<open>exit (-1)\<close> at the same point.
\<close>

theorem unknown_number_thread_exit:
  assumes "user_range (esp f)"
    and "load32 (mem s) (esp f) \<notin> set (labels nr)"
  shows "syscall_handler X nr f s =
           Exited (s\<lparr>trace := trace s @ [Validate (esp f), Load (esp f)]\<rparr>)
         \<and> syscall_handler X nr f s \<noteq>
           exit (- 1) (s\<lparr>trace := trace s @ [Validate (esp f), Load (esp f)]\<rparr>)"
proof -
  have "syscall_handler X nr f s =
           Exited (s\<lparr>trace := trace s @ [Validate (esp f), Load (esp f)]\<rparr>)"
    using assms(2)
    by (simp add: syscall_handler_def check_address_ok [OF assms(1)] then_do_Returned labels_def
        thread_exit_def log_def Let_def)
  then show ?thesis
    by (simp add: thread_exit_not_exit)
qed

theorem unknown_number_thread_exit_witness:
  "user_range 0xbffffff4 \<and> load32 (mem tiny_state) 0xbffffff4 \<notin> set (labels tiny_nr)
   \<and> syscall_handler tiny_ext tiny_nr \<lparr>esp = 0xbffffff4, eax = 0\<rparr> tiny_state =
       Exited (tiny_state\<lparr>trace := [Validate 0xbffffff4, Load 0xbffffff4]\<rparr>)"
proof -
  have a: "user_range (esp \<lparr>esp = 0xbffffff4, eax = 0\<rparr>)"
    by (simp add: user_range_def)
  have b: "load32 (mem tiny_state) (esp \<lparr>esp = 0xbffffff4, eax = 0\<rparr>) \<notin> set (labels tiny_nr)"
    by (simp add: load32_def tiny_state_def labels_def tiny_nr_def)
  show ?thesis
    using unknown_number_thread_exit [OF a b, of tiny_ext] a b
    by (simp add: tiny_state_def)
qed

lemma exits_marshalling_I:
  "r = exit (- 1) (s\<lparr>trace := trace s @ es\<rparr>) \<Longrightarrow> (\<forall>e\<in>set es. marshalling e) \<Longrightarrow>
   \<exists>es. r = exit (- 1) (s\<lparr>trace := trace s @ es\<rparr>) \<and> (\<forall>e\<in>set es. marshalling e)"
  by blast

lemma marshal_then_check_null:
  assumes n: "n \<le> 3" and p: "p < n" and z: "load32 (mem s) (slot sp p) = 0"
  shows "\<exists>es. then_do (get_argument sp [0, 0, 0] (of_nat n) s) (\<lambda>arg s2.
            then_do (check_address (arg ! p) s2) (g arg)) =
          exit (- 1) (s\<lparr>trace := trace s @ es\<rparr>) \<and> (\<forall>e\<in>set es. marshalling e)"
proof -
  have len: "n \<le> length [0 :: cint, 0, 0]" using n by simp
  show ?thesis
  proof (rule get_argument_cases [OF n len, of sp s], goal_cases)
    case 1
    have "(map (\<lambda>i. load32 (mem s) (slot sp i)) [0..<n] @ drop n [0, 0, 0]) ! p = 0"
      using p z by (simp add: nth_append)
    then have "then_do (get_argument sp [0, 0, 0] (of_nat n) s) (\<lambda>arg s2.
              then_do (check_address (arg ! p) s2) (g arg)) =
         exit (- 1) (log (Validate 0) (s\<lparr>trace := trace s @ marshal_events sp 0 n\<rparr>))"
      by (simp add: 1(2) then_do_Returned check_address_bad [OF null_not_user] then_do_exit)
    also have "\<dots> = exit (- 1) (s\<lparr>trace := trace s @ (marshal_events sp 0 n @ [Validate 0])\<rparr>)"
      by (simp add: log_def)
    finally show ?case
      by (rule exits_marshalling_I) (auto dest: marshalling_marshal_events)
  next
    case (2 i)
    have "then_do (get_argument sp [0, 0, 0] (of_nat n) s) (\<lambda>arg s2.
              then_do (check_address (arg ! p) s2) (g arg)) =
         exit (- 1) (s\<lparr>trace := trace s @ (marshal_events sp 0 i @ [Validate (slot sp i)])\<rparr>)"
      by (simp add: 2(2) then_do_exit)
    then show ?case
      by (rule exits_marshalling_I) (auto dest: marshalling_marshal_events)
  qed
qed

lemma handler_pointer_calls:
  fixes s :: "'k state" and f :: intr_frame
  assumes d: "distinct (labels nr)" and v: "user_range (esp f)"
  defines "s1 \<equiv> log (Load (esp f)) (log (Validate (esp f)) s)"
  shows "load32 (mem s) (esp f) = SYS_EXEC nr \<Longrightarrow>
         syscall_handler X nr f s =
            then_do (get_argument (esp f) [0, 0, 0] 1 s1) (\<lambda>arg s2.
            then_do (check_address (arg ! 0) s2) (\<lambda>u s3.
            then_do (exec X (arg ! 0) s3) (\<lambda>r s4.
              Returned (f\<lparr>eax := r\<rparr>) s4)))"
    and "load32 (mem s) (esp f) = SYS_CREATE nr \<Longrightarrow>
         syscall_handler X nr f s =
            then_do (get_argument (esp f) [0, 0, 0] 2 s1) (\<lambda>arg s2.
            then_do (check_address (arg ! 0) s2) (\<lambda>u s3.
            then_do (create X (arg ! 0) (arg ! 1) s3) (\<lambda>r s4.
              Returned (f\<lparr>eax := (if r then 1 else 0)\<rparr>) s4)))"
    and "load32 (mem s) (esp f) = SYS_REMOVE nr \<Longrightarrow>
         syscall_handler X nr f s =
            then_do (get_argument (esp f) [0, 0, 0] 1 s1) (\<lambda>arg s2.
            then_do (check_address (arg ! 0) s2) (\<lambda>u s3.
            then_do (remove X (arg ! 0) s3) (\<lambda>r s4.
              Returned (f\<lparr>eax := (if r then 1 else 0)\<rparr>) s4)))"
    and "load32 (mem s) (esp f) = SYS_OPEN nr \<Longrightarrow>
         syscall_handler X nr f s =
            then_do (get_argument (esp f) [0, 0, 0] 1 s1) (\<lambda>arg s2.
            then_do (check_address (arg ! 0) s2) (\<lambda>u s3.
            then_do (open_sys X (arg ! 0) s3) (\<lambda>r s4.
              Returned (f\<lparr>eax := r\<rparr>) s4)))"
    and "load32 (mem s) (esp f) = SYS_READ nr \<Longrightarrow>
         syscall_handler X nr f s =
            then_do (get_argument (esp f) [0, 0, 0] 3 s1) (\<lambda>arg s2.
            then_do (check_address (arg ! 1) s2) (\<lambda>u s3.
            then_do (read X (arg ! 0) (arg ! 1) (arg ! 2) s3) (\<lambda>r s4.
              Returned (f\<lparr>eax := r\<rparr>) s4)))"
    and "load32 (mem s) (esp f) = SYS_WRITE nr \<Longrightarrow>
         syscall_handler X nr f s =
            then_do (get_argument (esp f) [0, 0, 0] 3 s1) (\<lambda>arg s2.
            then_do (check_address (arg ! 1) s2) (\<lambda>u s3.
            then_do (write_sys X (arg ! 0) (arg ! 1) (arg ! 2) s3) (\<lambda>r s4.
              Returned (f\<lparr>eax := r\<rparr>) s4)))"
proof -
  have "distinct (rev (labels nr))"
    using d by simp
  then have r: "distinct [SYS_CLOSE nr, SYS_TELL nr, SYS_SEEK nr, SYS_WRITE nr, SYS_READ nr,
      SYS_FILESIZE nr, SYS_OPEN nr, SYS_REMOVE nr, SYS_CREATE nr, SYS_WAIT nr, SYS_EXEC nr,
      SYS_EXIT nr, SYS_HALT nr]"
    by (simp add: labels_def)
  show "load32 (mem s) (esp f) = SYS_EXEC nr \<Longrightarrow>
         syscall_handler X nr f s =
            then_do (get_argument (esp f) [0, 0, 0] 1 s1) (\<lambda>arg s2.
            then_do (check_address (arg ! 0) s2) (\<lambda>u s3.
            then_do (exec X (arg ! 0) s3) (\<lambda>r s4.
              Returned (f\<lparr>eax := r\<rparr>) s4)))"
    using r unfolding s1_def syscall_handler_def
    by (simp add: check_address_ok [OF v] then_do_Returned log_def Let_def)
  show "load32 (mem s) (esp f) = SYS_CREATE nr \<Longrightarrow>
         syscall_handler X nr f s =
            then_do (get_argument (esp f) [0, 0, 0] 2 s1) (\<lambda>arg s2.
            then_do (check_address (arg ! 0) s2) (\<lambda>u s3.
            then_do (create X (arg ! 0) (arg ! 1) s3) (\<lambda>r s4.
              Returned (f\<lparr>eax := (if r then 1 else 0)\<rparr>) s4)))"
    using r unfolding s1_def syscall_handler_def
    by (simp add: check_address_ok [OF v] then_do_Returned log_def Let_def)
  show "load32 (mem s) (esp f) = SYS_REMOVE nr \<Longrightarrow>
         syscall_handler X nr f s =
            then_do (get_argument (esp f) [0, 0, 0] 1 s1) (\<lambda>arg s2.
            then_do (check_address (arg ! 0) s2) (\<lambda>u s3.
            then_do (remove X (arg ! 0) s3) (\<lambda>r s4.
              Returned (f\<lparr>eax := (if r then 1 else 0)\<rparr>) s4)))"
    using r unfolding s1_def syscall_handler_def
    by (simp add: check_address_ok [OF v] then_do_Returned log_def Let_def)
  show "load32 (mem s) (esp f) = SYS_OPEN nr \<Longrightarrow>
         syscall_handler X nr f s =
            then_do (get_argument (esp f) [0, 0, 0] 1 s1) (\<lambda>arg s2.
            then_do (check_address (arg ! 0) s2) (\<lambda>u s3.
            then_do (open_sys X (arg ! 0) s3) (\<lambda>r s4.
              Returned (f\<lparr>eax := r\<rparr>) s4)))"
    using r unfolding s1_def syscall_handler_def
    by (simp add: check_address_ok [OF v] then_do_Returned log_def Let_def)
  show "load32 (mem s) (esp f) = SYS_READ nr \<Longrightarrow>
         syscall_handler X nr f s =
            then_do (get_argument (esp f) [0, 0, 0] 3 s1) (\<lambda>arg s2.
            then_do (check_address (arg ! 1) s2) (\<lambda>u s3.
            then_do (read X (arg ! 0) (arg ! 1) (arg ! 2) s3) (\<lambda>r s4.
              Returned (f\<lparr>eax := r\<rparr>) s4)))"
    using r unfolding s1_def syscall_handler_def
    by (simp add: check_address_ok [OF v] then_do_Returned log_def Let_def)
  show "load32 (mem s) (esp f) = SYS_WRITE nr \<Longrightarrow>
         syscall_handler X nr f s =
            then_do (get_argument (esp f) [0, 0, 0] 3 s1) (\<lambda>arg s2.
            then_do (check_address (arg ! 1) s2) (\<lambda>u s3.
            then_do (write_sys X (arg ! 0) (arg ! 1) (arg ! 2) s3) (\<lambda>r s4.
              Returned (f\<lparr>eax := r\<rparr>) s4)))"
    using r unfolding s1_def syscall_handler_def
    by (simp add: check_address_ok [OF v] then_do_Returned log_def Let_def)
qed

text \<open>
  C10. When the number on the stack is that of \<^verbatim>\<open>exec\<close>, \<^verbatim>\<open>create\<close>, \<^verbatim>\<open>remove\<close> or
  \<^verbatim>\<open>open\<close> and the first argument word is 0, or that of \<^verbatim>\<open>read\<close> or \<^verbatim>\<open>write\<close> and
  the second argument word is 0, \<^verbatim>\<open>syscall_handler\<close> ends in \<^verbatim>\<open>exit (-1)\<close>, having only
  validated and read user addresses: the system call itself does not run, and the
  branches of \<^verbatim>\<open>create\<close>, \<^verbatim>\<open>remove\<close> and \<^verbatim>\<open>open\<close> for a null name are not reached.
\<close>

theorem null_pointer_argument_exits:
  assumes d: "distinct (labels nr)"
    and a: "(load32 (mem s) (esp f) \<in> {SYS_EXEC nr, SYS_CREATE nr, SYS_REMOVE nr, SYS_OPEN nr}
             \<and> load32 (mem s) (slot (esp f) 0) = 0)
          \<or> (load32 (mem s) (esp f) \<in> {SYS_READ nr, SYS_WRITE nr}
             \<and> load32 (mem s) (slot (esp f) 1) = 0)"
  shows "\<exists>es. syscall_handler X nr f s = exit (- 1) (s\<lparr>trace := trace s @ es\<rparr>)
              \<and> (\<forall>e\<in>set es. marshalling e)"
proof (cases "user_range (esp f)")
  case False
  then have "syscall_handler X nr f s = exit (- 1) (s\<lparr>trace := trace s @ [Validate (esp f)]\<rparr>)"
    by (simp add: syscall_handler_def check_address_bad then_do_exit log_def)
  then show ?thesis
    by (rule exits_marshalling_I) simp
next
  case True
  let ?s1 = "log (Load (esp f)) (log (Validate (esp f)) s)"
  note calls = handler_pointer_calls [OF d True, of s X]
  have m: "mem ?s1 = mem s" by (simp add: log_def)
  have glue: "exit (- 1) (?s1\<lparr>trace := trace ?s1 @ es\<rparr>) =
              exit (- 1) (s\<lparr>trace := trace s @ ([Validate (esp f), Load (esp f)] @ es)\<rparr>)" for es
    by (simp add: log_def)
  have one: "\<exists>es. then_do (get_argument (esp f) [0, 0, 0] (of_nat n) ?s1) (\<lambda>arg s2.
            then_do (check_address (arg ! p) s2) (g arg)) =
          exit (- 1) (s\<lparr>trace := trace s @ es\<rparr>) \<and> (\<forall>e\<in>set es. marshalling e)"
    if h: "n \<le> 3" "p < n" "load32 (mem s) (slot (esp f) p) = 0" for n p g
  proof -
    have z: "load32 (mem ?s1) (slot (esp f) p) = 0"
      using h(3) by (simp add: m)
    obtain es where es: "then_do (get_argument (esp f) [0, 0, 0] (of_nat n) ?s1) (\<lambda>arg s2.
            then_do (check_address (arg ! p) s2) (g arg)) =
          exit (- 1) (?s1\<lparr>trace := trace ?s1 @ es\<rparr>)" "\<forall>e\<in>set es. marshalling e"
      using marshal_then_check_null [OF h(1) h(2) z, of g] by blast
    show ?thesis
      unfolding es(1) glue by (rule exits_marshalling_I [OF refl]) (simp add: es(2))
  qed
  consider (exec) "load32 (mem s) (esp f) = SYS_EXEC nr" "load32 (mem s) (slot (esp f) 0) = 0"
    | (create) "load32 (mem s) (esp f) = SYS_CREATE nr" "load32 (mem s) (slot (esp f) 0) = 0"
    | (remove) "load32 (mem s) (esp f) = SYS_REMOVE nr" "load32 (mem s) (slot (esp f) 0) = 0"
    | (open_sys) "load32 (mem s) (esp f) = SYS_OPEN nr" "load32 (mem s) (slot (esp f) 0) = 0"
    | (read) "load32 (mem s) (esp f) = SYS_READ nr" "load32 (mem s) (slot (esp f) 1) = 0"
    | (write_sys) "load32 (mem s) (esp f) = SYS_WRITE nr" "load32 (mem s) (slot (esp f) 1) = 0"
    using a by blast
  then show ?thesis
  proof cases
    case exec
    show ?thesis
      unfolding calls(1) [OF exec(1)] using one [of 1 0, OF _ _ exec(2)] by simp
  next
    case create
    show ?thesis
      unfolding calls(2) [OF create(1)] using one [of 2 0, OF _ _ create(2)] by simp
  next
    case remove
    show ?thesis
      unfolding calls(3) [OF remove(1)] using one [of 1 0, OF _ _ remove(2)] by simp
  next
    case open_sys
    show ?thesis
      unfolding calls(4) [OF open_sys(1)] using one [of 1 0, OF _ _ open_sys(2)] by simp
  next
    case read
    show ?thesis
      unfolding calls(5) [OF read(1)] using one [of 3 1, OF _ _ read(2)] by simp
  next
    case write_sys
    show ?thesis
      unfolding calls(6) [OF write_sys(1)] using one [of 3 1, OF _ _ write_sys(2)] by simp
  qed
qed

theorem null_pointer_argument_exits_witness:
  "distinct (labels tiny_nr)
   \<and> load32 (mem open_null_state) 0xbffffff0 = SYS_OPEN tiny_nr
   \<and> load32 (mem open_null_state) (slot 0xbffffff0 0) = 0
   \<and> (\<exists>es. syscall_handler tiny_ext tiny_nr \<lparr>esp = 0xbffffff0, eax = 0\<rparr> open_null_state =
              exit (- 1) (open_null_state\<lparr>trace := trace open_null_state @ es\<rparr>)
            \<and> (\<forall>e\<in>set es. marshalling e))"
proof -
  have d: "distinct (labels tiny_nr)"
    by (simp add: labels_def tiny_nr_def)
  have n: "load32 (mem open_null_state) (esp \<lparr>esp = 0xbffffff0, eax = 0\<rparr>) = SYS_OPEN tiny_nr"
    by (simp add: load32_def open_null_state_def tiny_nr_def)
  have z: "load32 (mem open_null_state) (slot (esp \<lparr>esp = 0xbffffff0, eax = 0\<rparr>) 0) = 0"
    by (simp add: load32_def open_null_state_def slot_def)
  have "\<exists>es. syscall_handler tiny_ext tiny_nr \<lparr>esp = 0xbffffff0, eax = 0\<rparr> open_null_state =
              exit (- 1) (open_null_state\<lparr>trace := trace open_null_state @ es\<rparr>)
            \<and> (\<forall>e\<in>set es. marshalling e)"
    using null_pointer_argument_exits [OF d, of open_null_state "\<lparr>esp = 0xbffffff0, eax = 0\<rparr>" tiny_ext] n z
    by simp
  then show ?thesis
    using d n z by simp
qed


subsection \<open>exec\<close>

text \<open>
  C3. What \<^verbatim>\<open>exec\<close> does, for every command line. With the child's record found it
  waits on the record's semaphore and then returns the child's identifier when the
  record's load flag is set and -1 when it is not. With no record found it does not
  return -1: \<^verbatim>\<open>sema_down (&cp->load)\<close> runs before the comparison of \<open>cp\<close> with
  \<^verbatim>\<open>NULL\<close> and dereferences the null record.
\<close>

theorem exec_outcome:
  "exec X cmd_line s =
     (let (tid, k1) = process_execute X (mem s) cmd_line (kernel s)
      in case get_child_process X tid k1 of
           None \<Rightarrow> Fault (s\<lparr>kernel := k1\<rparr>)
         | Some c \<Rightarrow>
             Returned (if is_load X c (sema_down X c k1) then tid else - 1)
               (s\<lparr>kernel := sema_down X c k1\<rparr>))"
  by (simp add: exec_def sema_down_load_def then_do_def Let_def split: prod.splits option.splits)

theorem exec_outcome_witness:
  "exec tiny_ext 0x8048000 tiny_state = Fault tiny_state"
  using exec_outcome [of tiny_ext "0x8048000" tiny_state]
  by (simp add: tiny_ext_def tiny_state_def)

subsection \<open>The filesystem lock\<close>

lemma word_succ_unat: "(i :: 32 word) < n \<Longrightarrow> unat (i + 1) = Suc (unat i)"
proof -
  assume "i < n"
  then have "i + 1 \<noteq> 0"
    by (metis eq_neg_iff_add_eq_0 word_order.extremum_strict)
  then show ?thesis
    by (metis unatSuc add.commute)
qed

lemma offset_eq: "(a = buffer + i) = (unat (a - buffer) = unat (i :: 32 word))"
  by (metis add_diff_cancel_left' diff_add_cancel word_unat_eq_iff add.commute)

lemma read_loop_spec:
  "i \<le> n \<Longrightarrow>
   read_loop buffer n i s =
     s\<lparr>mem := (\<lambda>a. if unat i \<le> unat (a - buffer) \<and> unat (a - buffer) < unat n
                     then keys s (unat (a - buffer) - unat i) else mem s a),
       keys := (\<lambda>j. keys s (unat n - unat i + j))\<rparr>"
proof (induction buffer n i s rule: read_loop.induct)
  case (1 buffer sz i s)
  show ?case
  proof (cases "i < sz")
    case False
    with 1(2) have eq: "i = sz" by simp
    have "(\<lambda>a. if unat sz \<le> unat (a - buffer) \<and> unat (a - buffer) < unat sz
                     then keys s (unat (a - buffer) - unat sz) else mem s a) = mem s"
      by (rule ext) auto
    then show ?thesis
      unfolding eq by (subst read_loop.simps) simp
  next
    case True
    let ?s2 = "s\<lparr>keys := (\<lambda>n. keys s (Suc n)), mem := (mem s)(buffer + i := keys s 0)\<rparr>"
    have su: "unat (i + 1) = Suc (unat i)"
      using True by (rule word_succ_unat)
    have le: "i + 1 \<le> sz"
      using True su by (simp add: word_le_nat_alt word_less_nat_alt)
    have lt: "unat i < unat sz"
      using True by (simp add: word_less_nat_alt)
    have ih: "read_loop buffer sz (i + 1) ?s2 =
        ?s2\<lparr>mem := (\<lambda>a. if unat (i + 1) \<le> unat (a - buffer) \<and> unat (a - buffer) < unat sz
                     then keys ?s2 (unat (a - buffer) - unat (i + 1)) else mem ?s2 a),
       keys := (\<lambda>j. keys ?s2 (unat sz - unat (i + 1) + j))\<rparr>"
      using 1(1) [OF True _ _ le, of "(keys s 0, s\<lparr>keys := (\<lambda>n. keys s (Suc n))\<rparr>)" "keys s 0" "s\<lparr>keys := (\<lambda>n. keys s (Suc n))\<rparr>"]
      by (simp add: input_getc_def cong: if_cong)
    have step: "read_loop buffer sz i s = read_loop buffer sz (i + 1) ?s2"
      using True by (subst read_loop.simps) (simp add: input_getc_def)
    have m: "(\<lambda>a. if unat (i + 1) \<le> unat (a - buffer) \<and> unat (a - buffer) < unat sz
                     then keys ?s2 (unat (a - buffer) - unat (i + 1)) else mem ?s2 a)
            = (\<lambda>a. if unat i \<le> unat (a - buffer) \<and> unat (a - buffer) < unat sz
                     then keys s (unat (a - buffer) - unat i) else mem s a)"
    proof
      fix a
      show "(if unat (i + 1) \<le> unat (a - buffer) \<and> unat (a - buffer) < unat sz
                     then keys ?s2 (unat (a - buffer) - unat (i + 1)) else mem ?s2 a)
            = (if unat i \<le> unat (a - buffer) \<and> unat (a - buffer) < unat sz
                     then keys s (unat (a - buffer) - unat i) else mem s a)"
        using lt by (auto simp: su offset_eq Suc_diff_Suc Suc_le_eq)
    qed
    have k: "(\<lambda>j. keys ?s2 (unat sz - unat (i + 1) + j)) = (\<lambda>j. keys s (unat sz - unat i + j))"
      using lt by (auto simp: su Suc_diff_Suc intro!: ext)
    show ?thesis
      unfolding step ih m k by (simp cong: if_cong)
  qed
qed

lemma read_loop_frame:
  "lock_held (read_loop buffer n 0 s) = lock_held s
   \<and> trace (read_loop buffer n 0 s) = trace s
   \<and> kernel (read_loop buffer n 0 s) = kernel s"
  using read_loop_spec [of 0 n buffer s] by simp

text \<open>
  C4. \<^verbatim>\<open>create\<close> and \<^verbatim>\<open>remove\<close>, entered with a name that is not null by a thread that
  does not hold \<^verbatim>\<open>filesys_lock\<close>, call \<^verbatim>\<open>filesys_create\<close> and \<^verbatim>\<open>filesys_remove\<close>
  without taking the lock: the call is the only event of the run, and it is made while
  the lock is not held.
\<close>

theorem create_remove_unlocked:
  assumes "file \<noteq> 0" and "\<not> lock_held s"
  shows "(\<exists>b s'. create X file initial_size s = Returned b s'
            \<and> new_events s s' = [Call Filesys_create]
            \<and> \<not> calls_locked (lock_held s) (new_events s s'))
       \<and> (\<exists>b s'. remove X file s = Returned b s'
            \<and> new_events s s' = [Call Filesys_remove]
            \<and> \<not> calls_locked (lock_held s) (new_events s s'))"
  using assms
  by (simp add: create_def remove_def Let_def log_def new_events_def split: prod.splits)

theorem create_remove_unlocked_witness:
  "(0x8048000 :: addr) \<noteq> 0 \<and> \<not> lock_held tiny_state
   \<and> create tiny_ext 0x8048000 0 tiny_state = Returned False (tiny_state\<lparr>trace := [Call Filesys_create]\<rparr>)
   \<and> \<not> calls_locked False [Call Filesys_create]"
proof -
  have a: "(0x8048000 :: addr) \<noteq> 0" by simp
  have b: "\<not> lock_held tiny_state" by (simp add: tiny_state_def)
  have "create tiny_ext 0x8048000 0 tiny_state = Returned False (tiny_state\<lparr>trace := [Call Filesys_create]\<rparr>)"
    using create_remove_unlocked [OF a b, of tiny_ext 0]
    by (simp add: create_def tiny_ext_def tiny_state_def log_def Let_def)
  then show ?thesis using a b by simp
qed

text \<open>
  C5. \<^verbatim>\<open>open\<close>, \<^verbatim>\<open>read\<close> and \<^verbatim>\<open>write\<close>, entered by a thread that does not hold
  \<^verbatim>\<open>filesys_lock\<close>, return, and on every path to the return the thread does not hold
  the lock any more and every call into the filesystem made on the way lies between a
  \<^verbatim>\<open>lock_acquire\<close> and the next \<^verbatim>\<open>lock_release\<close>.
\<close>

theorem lock_discipline:
  assumes "\<not> lock_held s"
  shows "(\<exists>r s'. open_sys X file s = Returned r s' \<and> \<not> lock_held s'
            \<and> trace s' = trace s @ new_events s s' \<and> calls_locked False (new_events s s'))
       \<and> (\<exists>r s'. read X fd buffer n s = Returned r s' \<and> \<not> lock_held s'
            \<and> trace s' = trace s @ new_events s s' \<and> calls_locked False (new_events s s'))
       \<and> (\<exists>r s'. write_sys X fd buffer n s = Returned r s' \<and> \<not> lock_held s'
            \<and> trace s' = trace s @ new_events s s' \<and> calls_locked False (new_events s s'))"
proof (intro conjI)
  show "\<exists>r s'. open_sys X file s = Returned r s' \<and> \<not> lock_held s'
            \<and> trace s' = trace s @ new_events s s' \<and> calls_locked False (new_events s s')"
    using assms
    by (simp add: open_sys_def Let_def lock_acquire_def lock_release_def log_def new_events_def
        split: prod.splits option.splits)
  show "\<exists>r s'. read X fd buffer n s = Returned r s' \<and> \<not> lock_held s'
            \<and> trace s' = trace s @ new_events s s' \<and> calls_locked False (new_events s s')"
    by (simp add: read_def Let_def read_loop_frame lock_acquire_def lock_release_def log_def
        new_events_def split: prod.splits option.splits)
  show "\<exists>r s'. write_sys X fd buffer n s = Returned r s' \<and> \<not> lock_held s'
            \<and> trace s' = trace s @ new_events s s' \<and> calls_locked False (new_events s s')"
    by (simp add: write_sys_def Let_def putbuf_def lock_acquire_def lock_release_def log_def
        new_events_def split: prod.splits option.splits)
qed

theorem lock_discipline_witness:
  "\<not> lock_held tiny_state
   \<and> (\<exists>r s'. open_sys tiny_ext 0x8048001 tiny_state = Returned r s' \<and> \<not> lock_held s'
         \<and> new_events tiny_state s' = [Acquire, Call Filesys_open, Release])
   \<and> (\<exists>r s'. read tiny_ext 7 0x8048001 4 tiny_state = Returned r s' \<and> \<not> lock_held s'
         \<and> new_events tiny_state s' = [Acquire, Release])"
proof -
  have a: "\<not> lock_held tiny_state" by (simp add: tiny_state_def)
  show ?thesis
    using lock_discipline [OF a, of tiny_ext "0x8048001" 7 "0x8048001" 4] a
    by (simp add: open_sys_def read_def tiny_ext_def tiny_state_def Let_def lock_acquire_def
        lock_release_def log_def new_events_def)
qed

subsection \<open>Descriptors without a handle\<close>

text \<open>
  C6. For a descriptor for which \<^verbatim>\<open>process_get_file\<close> finds no handle, \<^verbatim>\<open>filesize\<close>
  returns -1 and \<^verbatim>\<open>close\<close> returns after \<^verbatim>\<open>process_close_file\<close>; \<^verbatim>\<open>seek\<close> and \<^verbatim>\<open>tell\<close>
  do not return: they pass the null handle to \<^verbatim>\<open>file_seek\<close> and \<^verbatim>\<open>file_tell\<close>, which
  dereference it.
\<close>

theorem absent_descriptor:
  assumes "process_get_file X fd (kernel s) = None"
  shows "filesize X fd s = Returned (- 1) s
       \<and> seek X fd position s = Fault (log (Call File_seek) s)
       \<and> tell X fd s = Fault (log (Call File_tell) s)
       \<and> close X fd s = Returned () (s\<lparr>kernel := process_close_file X fd (kernel s)\<rparr>)"
  using assms
  by (simp add: filesize_def seek_def tell_def close_def file_seek_ptr_def file_tell_ptr_def)

theorem absent_descriptor_witness:
  "process_get_file tiny_ext 7 (kernel tiny_state) = None
   \<and> filesize tiny_ext 7 tiny_state = Returned (- 1) tiny_state
   \<and> seek tiny_ext 7 0 tiny_state = Fault (tiny_state\<lparr>trace := [Call File_seek]\<rparr>)
   \<and> tell tiny_ext 7 tiny_state = Fault (tiny_state\<lparr>trace := [Call File_tell]\<rparr>)"
proof -
  have a: "process_get_file tiny_ext 7 (kernel tiny_state) = None"
    by (simp add: tiny_ext_def tiny_state_def)
  show ?thesis
    using absent_descriptor [OF a, of 0] a
    by (simp add: log_def tiny_state_def)
qed

subsection \<open>Reading the keyboard\<close>







subsection \<open>The result of open\<close>





end
